theory Spec2Isabelle
  imports Main "HOL-Library.Monad_Syntax" "HOL-Library.AList"
begin

section \<open>String utilities (utils/string)\<close>

text \<open>
  A JavaScript string is a sequence of UTF-16 code units; \<open>length\<close>, \<open>indexOf\<close>,
  \<open>charAt\<close>, \<open>slice\<close> and \<open>substring\<close> all count code units. A string is modelled as
  a \<^typ>\<open>string\<close> (a list of characters), one character per code unit. Numbers that
  index strings are modelled as \<^typ>\<open>int\<close>: the source's \<open>number\<close> arguments are
  integer positions, possibly negative.
\<close>

definition js_slice :: "string \<Rightarrow> int \<Rightarrow> int \<Rightarrow> string" where
  \<comment> \<open>\<open>str.slice(start, end)\<close>: a negative index counts from the end, both are clamped
      to the string.\<close>
  "js_slice str start end =
     (let len = int (length str);
          from = (if start < 0 then max (len + start) 0 else min start len);
          to = (if end < 0 then max (len + end) 0 else min end len)
      in take (nat (to - from)) (drop (nat from) str))"

definition js_substring :: "string \<Rightarrow> int \<Rightarrow> int \<Rightarrow> string" where
  \<comment> \<open>\<open>str.substring(start, end)\<close>: indices are clamped to \<open>[0, length]\<close> and swapped
      when out of order.\<close>
  "js_substring str start end =
     (let len = int (length str);
          s = min (max start 0) len;
          e = min (max end 0) len;
          from = min s e;
          to = max s e
      in take (nat (to - from)) (drop (nat from) str))"

definition js_substring_from :: "string \<Rightarrow> int \<Rightarrow> string" where
  \<comment> \<open>\<open>str.substring(start)\<close>\<close>
  "js_substring_from str start = js_substring str start (int (length str))"

definition charAt :: "string \<Rightarrow> int \<Rightarrow> string" where
  \<comment> \<open>\<open>str.charAt(i)\<close>: the one-character string at \<open>i\<close>, the empty string out of range.\<close>
  "charAt str i = (if 0 \<le> i \<and> i < int (length str) then [str ! nat i] else [])"

fun indexOf_from :: "string \<Rightarrow> char \<Rightarrow> int \<Rightarrow> int" where
  "indexOf_from [] c i = -1"
| "indexOf_from (x # xs) c i = (if x = c then i else indexOf_from xs c (i + 1))"

definition indexOf :: "string \<Rightarrow> char \<Rightarrow> int" where
  \<comment> \<open>\<open>str.indexOf(c)\<close> for a one-character needle: the first position, or \<open>-1\<close>.\<close>
  "indexOf str c = indexOf_from str c 0"

definition truncateString :: "string \<Rightarrow> int option \<Rightarrow> string" where
  \<comment> \<open>\<open>truncateString(str, num = 8)\<close>; \<open>None\<close> is the omitted argument.\<close>
  "truncateString str num_arg =
     (let num = (case num_arg of None \<Rightarrow> 8 | Some n \<Rightarrow> n)
      in if int (length str) \<le> num then str
         else js_slice str 0 num @ ''...'')"

function trim_loop :: "string \<Rightarrow> int \<Rightarrow> int \<Rightarrow> int" where
  \<comment> \<open>\<open>while (i > decimalPointIndex && str.charAt(i) === "0") i--;\<close> returning the final \<open>i\<close>.\<close>
  "trim_loop str decimalPointIndex i =
     (if i > decimalPointIndex \<and> charAt str i = ''0''
      then trim_loop str decimalPointIndex (i - 1) else i)"
  by pat_completeness auto
termination
  by (relation "measure (\<lambda>(str, d, i). nat (i - d))") auto

declare trim_loop.simps [simp del]

definition trimZerosFromEnd :: "string \<Rightarrow> string" where
  "trimZerosFromEnd str =
     (let decimalPointIndex = indexOf str CHR ''.''
      in if decimalPointIndex = -1 then str
         else
           let charsAfterDecimal = js_substring_from str (decimalPointIndex + 1)
           in if \<not> list_ex (\<lambda>char. char \<noteq> CHR ''0'') charsAfterDecimal then str
              else
                let i = trim_loop str decimalPointIndex (int (length str) - 1);
                    i = (if charAt str i = ''.'' then i - 1 else i)
                in js_substring str 0 (i + 1))"

section \<open>Fixed-point decimals and integers of the unit library\<close>

text \<open>
  \<open>Dec\<close> and \<open>Int\<close> come from the wallet's unit library, which the sources import and
  which is not part of this repository. A \<open>Dec\<close> is a signed big integer counting units
  of \<open>10\<^sup>-\<^sup>1\<^sup>8\<close>: the decimal \<open>1.5\<close> is the integer \<open>1500000000000000000\<close>. Its
  operations are modelled after the library:
  \<^item> \<open>add\<close>, \<open>sub\<close> and the comparisons work on the underlying integers;
  \<^item> \<open>mul\<close> multiplies the integers and removes 18 digits again with
    \<open>chopPrecisionAndRound\<close>;
  \<^item> \<open>quo\<close> multiplies the dividend by \<open>10\<^sup>3\<^sup>6\<close>, divides by the divisor with the big
    integer division, which truncates towards zero and raises an exception on a zero
    divisor, and removes 18 digits with \<open>chopPrecisionAndRound\<close>.

  The library also refuses a \<open>Dec\<close> whose integer needs more than 316 bits (about
  \<open>10\<^sup>7\<^sup>7\<close> as a decimal); that range check is outside this model, whose decimals are
  unbounded. An exception is the result \<open>None\<close>.

  The theorems below use of the rounding only that it is to a nearest integer; they
  hold however a tie is broken.
\<close>

datatype Dec = Dec (atomics: int)

definition precisionMultiplier :: int where
  \<comment> \<open>\<open>Dec.calcPrecisionMultiplier(0)\<close>\<close>
  "precisionMultiplier = 10 ^ 18"

definition tdiv :: "int \<Rightarrow> int \<Rightarrow> int" where
  \<comment> \<open>big integer \<open>divide\<close>: the quotient truncated towards zero\<close>
  "tdiv a b = sgn a * sgn b * (\<bar>a\<bar> div \<bar>b\<bar>)"

definition chopPositive :: "int \<Rightarrow> int" where
  \<comment> \<open>\<open>chopPrecisionAndRound\<close> on a number that is not negative: removes 18 digits and
      rounds to the nearest integer. On a tie the library returns the quotient when
      \<open>quotient.divide(2)\<close> equals 0, and the quotient plus one otherwise.\<close>
  "chopPositive d =
     (let fivePrecision = precisionMultiplier div 2;
          quotient = d div precisionMultiplier;
          remainder = d mod precisionMultiplier
      in if remainder = 0 then quotient
         else if remainder < fivePrecision then quotient
         else if remainder > fivePrecision then quotient + 1
         else if quotient div 2 = 0 then quotient
         else quotient + 1)"

definition chopPrecisionAndRound :: "int \<Rightarrow> int" where
  \<comment> \<open>a negative number is rounded by its magnitude, and negated again\<close>
  "chopPrecisionAndRound d = (if d < 0 then - chopPositive \<bar>d\<bar> else chopPositive d)"

definition newDec :: "int \<Rightarrow> Dec" where
  \<comment> \<open>\<open>new Dec(n)\<close> for an integer \<open>n\<close>\<close>
  "newDec n = Dec (n * precisionMultiplier)"

definition dec_add :: "Dec \<Rightarrow> Dec \<Rightarrow> Dec" where
  "dec_add a b = Dec (atomics a + atomics b)"


definition dec_mul :: "Dec \<Rightarrow> Dec \<Rightarrow> Dec" where
  "dec_mul a b = Dec (chopPrecisionAndRound (atomics a * atomics b))"

definition dec_quo :: "Dec \<Rightarrow> Dec \<Rightarrow> Dec option" where
  "dec_quo a b =
     (if atomics b = 0 then None
      else Some (Dec (chopPrecisionAndRound
             (tdiv (atomics a * precisionMultiplier * precisionMultiplier) (atomics b)))))"

definition dec_lt :: "Dec \<Rightarrow> Dec \<Rightarrow> bool" where
  "dec_lt a b = (atomics a < atomics b)"

definition dec_lte :: "Dec \<Rightarrow> Dec \<Rightarrow> bool" where
  "dec_lte a b = (atomics a \<le> atomics b)"

definition dec_gt :: "Dec \<Rightarrow> Dec \<Rightarrow> bool" where
  "dec_gt a b = (atomics a > atomics b)"

definition dec_gte :: "Dec \<Rightarrow> Dec \<Rightarrow> bool" where
  "dec_gte a b = (atomics a \<ge> atomics b)"

definition dec_isZero :: "Dec \<Rightarrow> bool" where
  "dec_isZero a = (atomics a = 0)"

definition getTenExponentN :: "int \<Rightarrow> Dec option" where
  \<comment> \<open>\<open>DecUtils.getTenExponentN(n)\<close>: the decimal \<open>10\<^sup>n\<close>; the library raises an
      exception below \<open>-18\<close>, where the power is no longer a \<open>Dec\<close>.\<close>
  "getTenExponentN n =
     (if n < - 18 then None
      else if 0 \<le> n then Some (Dec (10 ^ nat n * precisionMultiplier))
      else Some (Dec (10 ^ nat (18 + n))))"

section \<open>Reward aggregation (concentrated liquidity router)\<close>

text \<open>
  A raw asset of a query response is an amount and a denomination. \<open>getAsset\<close>, the
  asset lookup of the server, is a parameter: it resolves a denomination to a known
  asset (of which the code reads the minimal denomination and the decimals), or to
  nothing. A \<open>CoinPretty\<close> of the unit library pairs a currency with an amount, kept
  here in minimal-denomination units; its \<open>add\<close> adds the amount of a coin of the same
  minimal denomination and ignores any other coin.
\<close>

record currency =
  coinMinimalDenom :: string
  coinDecimals :: nat

record raw_asset =
  amount :: int
  denom :: string

record coin_pretty =
  cp_currency :: currency
  cp_amount :: int

definition newCoinPretty :: "currency \<Rightarrow> int \<Rightarrow> coin_pretty" where
  "newCoinPretty asset amt = \<lparr>cp_currency = asset, cp_amount = amt\<rparr>"

definition coin_denom :: "coin_pretty \<Rightarrow> string" where
  \<comment> \<open>\<open>coin.currency.coinMinimalDenom\<close>\<close>
  "coin_denom coin = coinMinimalDenom (cp_currency coin)"

definition coin_add :: "coin_pretty \<Rightarrow> coin_pretty \<Rightarrow> coin_pretty" where
  \<comment> \<open>\<open>this.add(target)\<close>\<close>
  "coin_add this target =
     (if coin_denom this \<noteq> coin_denom target then this
      else this\<lparr>cp_amount := cp_amount this + cp_amount target\<rparr>)"

definition mapRawAssetsToCoinPretty ::
  "(string \<Rightarrow> currency option) \<Rightarrow> raw_asset list option \<Rightarrow> coin_pretty list" where
  "mapRawAssetsToCoinPretty getAsset rawAssets =
     (case rawAssets of
        None \<Rightarrow> []
      | Some assets \<Rightarrow>
          let result =
                map (\<lambda>r. case getAsset (denom r) of
                            None \<Rightarrow> None
                          | Some asset \<Rightarrow> Some (newCoinPretty asset (amount r))) assets
          in List.map_filter (\<lambda>p. p) result)"

text \<open>
  A JavaScript \<open>Map\<close> keeps its keys in insertion order: it is an association list
  with distinct keys, \<open>get\<close> is \<^const>\<open>map_of\<close>, \<open>set\<close> is \<^const>\<open>AList.update\<close>
  (which replaces the value of a present key in place and appends a new key at the
  end), and \<open>values()\<close> lists the second components.
\<close>

definition sumByDenoms_step ::
  "(string \<times> coin_pretty) list \<Rightarrow> coin_pretty \<Rightarrow> (string \<times> coin_pretty) list" where
  \<comment> \<open>the body of the \<open>reduce\<close> callback of \<open>getTotalClaimableRewards\<close>\<close>
  "sumByDenoms_step sumByDenoms coin =
     (case map_of sumByDenoms (coin_denom coin) of
        Some current \<Rightarrow> AList.update (coin_denom coin) (coin_add current coin) sumByDenoms
      | None \<Rightarrow> AList.update (coin_denom coin) coin sumByDenoms)"

definition getTotalClaimableRewards ::
  "(string \<Rightarrow> currency option) \<Rightarrow> raw_asset list option \<Rightarrow> raw_asset list option
     \<Rightarrow> coin_pretty list" where
  "getTotalClaimableRewards getAsset rawClaimableIncentiveRewards rawClaimableSpreadRewards =
     (let claimableIncentiveRewards =
            mapRawAssetsToCoinPretty getAsset rawClaimableIncentiveRewards;
          claimableSpreadRewards =
            mapRawAssetsToCoinPretty getAsset rawClaimableSpreadRewards
      in map snd
           (foldl sumByDenoms_step [] (claimableSpreadRewards @ claimableIncentiveRewards)))"

definition earnedCoinDenomMap_step ::
  "(string \<times> coin_pretty) list \<Rightarrow> coin_pretty \<Rightarrow> (string \<times> coin_pretty) list" where
  \<comment> \<open>the body of the \<open>forEach\<close> callback of \<open>getTotalEarned\<close>\<close>
  "earnedCoinDenomMap_step earnedCoinDenomMap coin =
     (case map_of earnedCoinDenomMap (coin_denom coin) of
        Some existingCoin \<Rightarrow>
          AList.update (coin_denom coin) (coin_add existingCoin coin) earnedCoinDenomMap
      | None \<Rightarrow> AList.update (coin_denom coin) coin earnedCoinDenomMap)"

definition getTotalEarned ::
  "(string \<Rightarrow> currency option) \<Rightarrow> raw_asset list option \<Rightarrow> raw_asset list option
     \<Rightarrow> coin_pretty list" where
  "getTotalEarned getAsset totalSpreadRewards totalIncentivesRewards =
     (let spreadRewards = mapRawAssetsToCoinPretty getAsset totalSpreadRewards;
          incentivesRewards = mapRawAssetsToCoinPretty getAsset totalIncentivesRewards
      in map snd (foldl earnedCoinDenomMap_step [] (spreadRewards @ incentivesRewards)))"

text \<open>
  To state what the aggregation returns: the entries of an optional raw list, the
  minimal denomination that a raw asset resolves to, and the total amount of the coins
  of one denomination in a list of coins.
\<close>

definition entries :: "raw_asset list option \<Rightarrow> raw_asset list" where
  "entries rawAssets = (case rawAssets of None \<Rightarrow> [] | Some assets \<Rightarrow> assets)"

definition resolved_denom :: "(string \<Rightarrow> currency option) \<Rightarrow> raw_asset \<Rightarrow> string option" where
  "resolved_denom getAsset r =
     (case getAsset (denom r) of None \<Rightarrow> None | Some asset \<Rightarrow> Some (coinMinimalDenom asset))"

definition total :: "string \<Rightarrow> coin_pretty list \<Rightarrow> int" where
  "total k cs = sum_list (map cp_amount (filter (\<lambda>x. coin_denom x = k) cs))"

definition agg_inv :: "(string \<times> coin_pretty) list \<Rightarrow> coin_pretty list \<Rightarrow> bool" where
  \<comment> \<open>the loop invariant of the aggregation: \<open>acc\<close> is the map after the coins \<open>cs\<close>\<close>
  "agg_inv acc cs \<longleftrightarrow>
     distinct (map fst acc) \<and> fst ` set acc = coin_denom ` set cs \<and>
     (\<forall>k c. map_of acc k = Some c \<longrightarrow> coin_denom c = k \<and> cp_amount c = total k cs)"

section \<open>Price input (hooks/input/use-price-input)\<close>

text \<open>
  The hook keeps the raw text of a price and the multiplier
  \<open>multiplicationQuoteOverBase\<close>, ten to the power of the difference of the decimals
  of the base and the quote currency (a missing currency counts as 0 decimals).
  \<open>new Dec(text)\<close> of the unit library is the parameter \<open>parseDec\<close>, \<open>None\<close> when it
  raises an exception.
\<close>

definition decimalsOrZero :: "currency option \<Rightarrow> nat" where
  \<comment> \<open>\<open>currency?.coinDecimals ?? 0\<close>\<close>
  "decimalsOrZero c = (case c of None \<Rightarrow> 0 | Some cur \<Rightarrow> coinDecimals cur)"

definition multiplicationQuoteOverBase :: "currency option \<Rightarrow> currency option \<Rightarrow> Dec option" where
  "multiplicationQuoteOverBase memoedBaseCurrency memoedQuoteCurrency =
     getTenExponentN
       (int (decimalsOrZero memoedBaseCurrency) - int (decimalsOrZero memoedQuoteCurrency))"

definition addCurrencyDecimals :: "Dec \<Rightarrow> Dec \<Rightarrow> Dec" where
  \<comment> \<open>\<open>price.mul(multiplicationQuoteOverBase)\<close> for a price that is a \<open>Dec\<close>; the first
      argument is the multiplier of the hook\<close>
  "addCurrencyDecimals multiplier price = dec_mul price multiplier"

definition removeCurrencyDecimals :: "Dec \<Rightarrow> Dec \<Rightarrow> Dec option" where
  \<comment> \<open>\<open>price.quo(multiplicationQuoteOverBase)\<close>\<close>
  "removeCurrencyDecimals multiplier price = dec_quo price multiplier"

record price_input =
  decRaw :: string
  multiplier :: Dec

definition endsWith :: "string \<Rightarrow> string \<Rightarrow> bool" where
  "endsWith str suffix = (length suffix \<le> length str \<and> drop (length str - length suffix) str = suffix)"

definition toDec :: "(string \<Rightarrow> Dec option) \<Rightarrow> price_input \<Rightarrow> Dec option" where
  "toDec parseDec inp =
     (if endsWith (decRaw inp) ''.''
      then do { price \<leftarrow> parseDec (js_slice (decRaw inp) 0 (- 1));
                removeCurrencyDecimals (multiplier inp) price }
      else do { price \<leftarrow> parseDec (decRaw inp);
                removeCurrencyDecimals (multiplier inp) price })"

section \<open>Add-liquidity state (hooks/ui-config/use-add-concentrated-liquidity-config)\<close>

text \<open>
  The math package of the repository (tick and price conversion, the tick and spot
  price bounds) is not among the sources; what the hook uses of it is a parameter, the
  record \<open>math_lib\<close>. A function of the package that can raise an exception returns an
  option. Each memoised value of the hook is a function of the values it depends on.
\<close>

record math_lib =
  minTick :: int
  maxTick :: int
  minSpotPrice :: Dec
  maxSpotPrice :: Dec
  priceToTick :: "Dec \<Rightarrow> int option"
  roundToNearestDivisible :: "int \<Rightarrow> int \<Rightarrow> int option"
  roundPriceToNearestTick :: "Dec \<Rightarrow> int \<Rightarrow> bool \<Rightarrow> Dec option"

record cl_pool =
  tick_spacing :: int

definition range_memo ::
  "math_lib \<Rightarrow> (string \<Rightarrow> Dec option) \<Rightarrow> price_input \<Rightarrow> price_input \<Rightarrow> cl_pool option
     \<Rightarrow> bool \<Rightarrow> Dec \<Rightarrow> (Dec \<times> Dec) option" where
  \<comment> \<open>the memo \<open>range\<close>; \<open>None\<close> when an exception leaves it. Both inputs are
      converted before the test \<open>fullRange || !clPool\<close>.\<close>
  "range_memo lib parseDec minPriceInput maxPriceInput clPool fullRange currentPrice =
     do {
       input0 \<leftarrow> toDec parseDec minPriceInput;
       input1 \<leftarrow> toDec parseDec maxPriceInput;
       case clPool of
         None \<Rightarrow> Some (minSpotPrice lib, maxSpotPrice lib)
       | Some pool \<Rightarrow>
           if fullRange then Some (minSpotPrice lib, maxSpotPrice lib)
           else do {
             let tickSpacing = tick_spacing pool;
             inputMinPrice \<leftarrow> roundPriceToNearestTick lib input0 tickSpacing True;
             inputMaxPrice \<leftarrow> roundPriceToNearestTick lib input1 tickSpacing True;
             minPrice50x \<leftarrow> dec_quo currentPrice (newDec 50);
             let maxPrice50x = dec_mul currentPrice (newDec 50);
             Some (if dec_lt inputMinPrice minPrice50x then minPrice50x else inputMinPrice,
                   if dec_gt inputMaxPrice maxPrice50x then maxPrice50x else inputMaxPrice)
           }
     }"

definition tickRange_try :: "math_lib \<Rightarrow> int \<Rightarrow> Dec \<times> Dec \<Rightarrow> (int \<times> int) option" where
  \<comment> \<open>the body of the \<open>try\<close> block of \<open>tickRange\<close>\<close>
  "tickRange_try lib tickDivisor range_v =
     do {
       lowerTick \<leftarrow> priceToTick lib (fst range_v);
       upperTick \<leftarrow> priceToTick lib (snd range_v);
       lowerTickRounded \<leftarrow> roundToNearestDivisible lib lowerTick tickDivisor;
       upperTickRounded \<leftarrow> roundToNearestDivisible lib upperTick tickDivisor;
       let (lowerTickRounded, upperTickRounded) =
             (if lowerTickRounded = upperTickRounded
              then (lowerTickRounded - tickDivisor, upperTickRounded + tickDivisor)
              else (lowerTickRounded, upperTickRounded));
       Some (if lowerTickRounded < minTick lib then minTick lib else lowerTickRounded,
             if upperTickRounded > maxTick lib then maxTick lib else upperTickRounded)
     }"

definition tickRange :: "math_lib \<Rightarrow> bool \<Rightarrow> int \<Rightarrow> Dec \<times> Dec \<Rightarrow> int \<times> int" where
  \<comment> \<open>the memo \<open>tickRange\<close>; \<open>tickDivisor\<close> is an \<open>Int\<close> object, so \<open>!tickDivisor\<close> is
      false; the \<open>catch\<close> returns the full tick range\<close>
  "tickRange lib fullRange tickDivisor range_v =
     (if fullRange then (minTick lib, maxTick lib)
      else case tickRange_try lib tickDivisor range_v of
             Some ticks \<Rightarrow> ticks
           | None \<Rightarrow> (minTick lib, maxTick lib))"

definition baseDepositOnly :: "Dec \<Rightarrow> bool \<Rightarrow> Dec \<times> Dec \<Rightarrow> bool" where
  \<comment> \<open>the two entries of \<open>range\<close> are \<open>Dec\<close> objects, so the test for a string is false\<close>
  "baseDepositOnly currentPrice fullRange range_v =
     (if dec_isZero currentPrice then False
      else \<not> fullRange \<and> dec_lt currentPrice (fst range_v) \<and> dec_lt currentPrice (snd range_v))"

definition quoteDepositOnly :: "Dec \<Rightarrow> bool \<Rightarrow> Dec \<times> Dec \<Rightarrow> bool" where
  "quoteDepositOnly currentPrice fullRange range_v =
     (if dec_isZero currentPrice then False
      else \<not> fullRange \<and> dec_gt currentPrice (fst range_v) \<and> dec_gt currentPrice (snd range_v))"

definition depositPercentages ::
  "bool \<Rightarrow> bool \<Rightarrow> Dec option \<Rightarrow> Dec option \<Rightarrow> (Dec \<times> Dec) option" where
  \<comment> \<open>the memo \<open>depositPercentages\<close>; a fiat value is the \<open>Dec\<close> of the price object, a
      \<open>RatePretty\<close> is the \<open>Dec\<close> it wraps; \<open>None\<close> when an exception leaves the memo\<close>
  "depositPercentages baseDepositOnly_v quoteDepositOnly_v amount1FiatValue amount0FiatValue =
     (case (amount0FiatValue, amount1FiatValue) of
        (Some value0, Some value1) \<Rightarrow>
          if baseDepositOnly_v then Some (newDec 1, newDec 0)
          else if quoteDepositOnly_v then Some (newDec 0, newDec 1)
          else
            let totalFiatValue = dec_add value0 value1
            in if dec_isZero totalFiatValue then Some (newDec 0, newDec 0)
               else do {
                 share0 \<leftarrow> dec_quo value0 totalFiatValue;
                 share1 \<leftarrow> dec_quo value1 totalFiatValue;
                 Some (share0, share1)
               }
      | _ \<Rightarrow> Some (newDec 0, newDec 0))"

datatype 'e liquidity_error = InvalidRangeError string | AmountInputError 'e

definition error_memo ::
  "bool \<Rightarrow> Dec \<times> Dec \<Rightarrow> bool \<Rightarrow> bool \<Rightarrow> 'e option \<Rightarrow> 'e option \<Rightarrow> 'e liquidity_error option" where
  \<comment> \<open>the memo \<open>error\<close>; the errors of the two amount inputs are of classes of their
      own (\<open>'e\<close>), \<open>None\<close> is \<open>undefined\<close>\<close>
  "error_memo fullRange range_v quoteDepositOnly_v baseDepositOnly_v quoteError baseError =
     (if \<not> fullRange \<and> dec_gte (fst range_v) (snd range_v)
      then Some (InvalidRangeError ''lower range must be less than upper range.'')
      else if quoteDepositOnly_v then map_option AmountInputError quoteError
      else if baseDepositOnly_v then map_option AmountInputError baseError
      else (case baseError of
              Some e \<Rightarrow> Some (AmountInputError e)
            | None \<Rightarrow> map_option AmountInputError quoteError))"

text \<open>
  An instance of the math package's interface, to evaluate the memos on concrete
  inputs. It holds the package's tick and spot price bounds, its ticks for the prices 1
  and 10 (tick 0 and tick 9000000), and roundings that leave a multiple of the tick
  spacing and a price on a tick as they are. It is a table of these values only:
  everywhere else its functions give no result, as the package does for the price 0,
  which is below the least spot price.
\<close>

definition example_lib :: math_lib where
  "example_lib =
     \<lparr>minTick = - 108000000,
      maxTick = 342000000,
      minSpotPrice = Dec 1000000,
      maxSpotPrice = newDec (10 ^ 38),
      priceToTick = (\<lambda>price. if price = newDec 1 then Some 0
                              else if price = newDec 10 then Some 9000000 else None),
      roundToNearestDivisible = (\<lambda>tick divisor. if tick mod divisor = 0 then Some tick else None),
      roundPriceToNearestTick = (\<lambda>price tickSpacing isLowerTick.
                              if price = newDec 1 \<or> price = newDec 10 then Some price else None)\<rparr>"

definition example_parseDec :: "string \<Rightarrow> Dec option" where
  \<comment> \<open>\<open>new Dec(text)\<close> on the two texts used in the examples\<close>
  "example_parseDec text =
     (if text = ''1'' then Some (newDec 1) else if text = ''10'' then Some (newDec 10) else None)"

section \<open>Position status (concentrated liquidity router)\<close>


record position_input =
  lowerPrice :: Dec
  upperPrice :: Dec
  currentPrice :: Dec
  isFullRange :: bool
  isSuperfluid :: bool
  isSuperfluidUnstaking :: bool
  isUnbonding :: bool


section \<open>Properties of the string utilities\<close>

lemma js_slice_0_nonneg: "0 \<le> e \<Longrightarrow> js_slice str 0 e = take (nat e) str"
  by (simp add: js_slice_def Let_def min_def)

lemma js_substring_0: "js_substring str 0 e = take (nat e) str"
  by (auto simp add: js_substring_def Let_def min_def max_def)

lemma js_substring_from_drop: "0 \<le> s \<Longrightarrow> js_substring_from str s = drop (nat s) str"
  by (auto simp add: js_substring_from_def js_substring_def Let_def min_def max_def)

lemma indexOf_from_eq:
  "indexOf_from xs c i =
     (if c \<in> set xs then i + int (length (takeWhile (\<lambda>x. x \<noteq> c) xs)) else -1)"
  by (induction xs arbitrary: i) auto

lemma drop_Suc_takeWhile:
  "drop (Suc (length (takeWhile P xs))) xs = tl (dropWhile P xs)"
  by (induction xs) auto

lemma trim_loop_skip:
  "d \<le> k \<Longrightarrow> (\<forall>j. k < j \<and> j \<le> k + int n \<longrightarrow> charAt str j = ''0'') \<Longrightarrow>
   trim_loop str d (k + int n) = trim_loop str d k"
proof (induction n)
  case 0
  then show ?case by simp
next
  case (Suc n)
  have "charAt str (k + int (Suc n)) = ''0''"
    using Suc.prems(2) by simp
  then have "trim_loop str d (k + int (Suc n)) = trim_loop str d (k + int n)"
    using Suc.prems(1) by (subst trim_loop.simps) (simp add: add.commute add.left_commute)
  then show ?case
    using Suc by simp
qed

lemma trim_loop_stop: "charAt str k \<noteq> ''0'' \<Longrightarrow> trim_loop str d k = k"
  by (subst trim_loop.simps) simp

lemma strip_decomp:
  "str = rev (dropWhile (\<lambda>c. c = z) (rev str)) @ replicate (length (takeWhile (\<lambda>c. c = z) (rev str))) z"
proof -
  have "takeWhile (\<lambda>c. c = z) (rev str) = replicate (length (takeWhile (\<lambda>c. c = z) (rev str))) z"
    by (rule replicate_length_same [symmetric]) (auto dest: set_takeWhileD)
  then have "rev str = replicate (length (takeWhile (\<lambda>c. c = z) (rev str))) z @ dropWhile (\<lambda>c. c = z) (rev str)"
    by (metis takeWhile_dropWhile_id)
  then have "rev (rev str) = rev (replicate (length (takeWhile (\<lambda>c. c = z) (rev str))) z @ dropWhile (\<lambda>c. c = z) (rev str))"
    by simp
  then show ?thesis by simp
qed

lemma strip_last: 
  "rev (dropWhile (\<lambda>c. c = z) (rev str)) \<noteq> [] \<Longrightarrow> last (rev (dropWhile (\<lambda>c. c = z) (rev str))) \<noteq> z"
  using hd_dropWhile [of "\<lambda>c. c = z" "rev str"] by (simp add: last_rev)


lemma trim_loop_strip:
  assumes j: "d < j" "j < int (length str)" "str ! nat j \<noteq> CHR ''0''" and d: "0 \<le> d"
  defines "t \<equiv> rev (dropWhile (\<lambda>c. c = CHR ''0'') (rev str))"
  shows "trim_loop str d (int (length str) - 1) = int (length t) - 1"
    and "d + 1 < int (length t)"
    and "last t \<noteq> CHR ''0''"
    and "str ! nat (int (length t) - 1) = last t"
    and "take (length t) str = t"
proof -
  define n where "n = length (takeWhile (\<lambda>c. c = CHR ''0'') (rev str))"
  have str: "str = t @ replicate n CHR ''0''"
    unfolding t_def n_def by (rule strip_decomp)
  have len: "length str = length t + n"
    by (subst str) simp
  have zeros: "str ! i = CHR ''0''" if "length t \<le> i" "i < length str" for i
    using that len by (subst str) (simp add: nth_append)
  have jn: "nat j < length str"
    using j d by linarith
  have "nat j < length t"
    using zeros [of "nat j"] j(3) jn by (cases "length t \<le> nat j") auto
  then show dt: "d + 1 < int (length t)"
    using j d by linarith
  then have ne: "t \<noteq> []" using d by auto
  then show last: "last t \<noteq> CHR ''0''"
    unfolding t_def by (rule strip_last)
  show nth: "str ! nat (int (length t) - 1) = last t"
    using ne by (subst str) (simp add: nth_append last_conv_nth nat_diff_distrib')
  show "take (length t) str = t"
    by (subst str) simp
  have "charAt str (int (length t) - 1) = [last t]"
    using ne nth len unfolding charAt_def by auto
  then have stop: "trim_loop str d (int (length t) - 1) = int (length t) - 1"
    using last by (intro trim_loop_stop) simp
  have "\<forall>i. int (length t) - 1 < i \<and> i \<le> int (length t) - 1 + int n \<longrightarrow> charAt str i = ''0''"
    using zeros len unfolding charAt_def by auto
  then have "trim_loop str d (int (length t) - 1 + int n) = trim_loop str d (int (length t) - 1)"
    using dt by (intro trim_loop_skip) auto
  moreover have "int (length str) - 1 = int (length t) - 1 + int n"
    using len by simp
  ultimately show "trim_loop str d (int (length str) - 1) = int (length t) - 1"
    using stop by (simp only:)
qed

lemma not_all_zero_nth:
  assumes "\<not> list_all (\<lambda>c. c = CHR ''0'') (drop k str)"
  shows "\<exists>j. int k \<le> j \<and> j < int (length str) \<and> str ! nat j \<noteq> CHR ''0''"
proof -
  from assms obtain c where "c \<in> set (drop k str)" "c \<noteq> CHR ''0''"
    by (auto simp add: list_all_iff)
  then obtain i where "i < length (drop k str)" "drop k str ! i \<noteq> CHR ''0''"
    by (auto simp add: in_set_conv_nth)
  then have "int k \<le> int (k + i) \<and> int (k + i) < int (length str) \<and> str ! nat (int (k + i)) \<noteq> CHR ''0''"
    by (auto simp del: of_nat_add)
  then show ?thesis by blast
qed

text \<open>
  Claim C7. \<open>trimZerosFromEnd\<close> returns the string unchanged when it has no \<open>'.'\<close> or when
  every character after the first \<open>'.'\<close> is \<open>'0'\<close>; otherwise it returns the string
  without its trailing \<open>'0'\<close> characters, and without the \<open>'.'\<close> too when that leaves a
  \<open>'.'\<close> at the end.
\<close>

theorem trimZerosFromEnd_spec:
  "trimZerosFromEnd str =
     (if CHR ''.'' \<notin> set str \<or>
         list_all (\<lambda>c. c = CHR ''0'') (tl (dropWhile (\<lambda>c. c \<noteq> CHR ''.'') str))
      then str
      else let t = rev (dropWhile (\<lambda>c. c = CHR ''0'') (rev str))
           in if last t = CHR ''.'' then butlast t else t)"
proof (cases "CHR ''.'' \<in> set str")
  case False
  then show ?thesis
    by (simp add: trimZerosFromEnd_def indexOf_def indexOf_from_eq)
next
  case True
  define d where "d = int (length (takeWhile (\<lambda>c. c \<noteq> CHR ''.'') str))"
  define t where "t = rev (dropWhile (\<lambda>c. c = CHR ''0'') (rev str))"
  have idx: "indexOf str CHR ''.'' = d"
    using True by (simp add: indexOf_def indexOf_from_eq d_def)
  have d0: "0 \<le> d" by (simp add: d_def)
  have after: "js_substring_from str (d + 1) = tl (dropWhile (\<lambda>c. c \<noteq> CHR ''.'') str)"
    using d0 by (simp add: js_substring_from_drop d_def nat_add_distrib drop_Suc_takeWhile)
  have ex: "list_ex (\<lambda>char. char \<noteq> CHR ''0'') xs \<longleftrightarrow> \<not> list_all (\<lambda>c. c = CHR ''0'') xs" for xs
    by (auto simp add: list_ex_iff list_all_iff)
  show ?thesis
  proof (cases "list_all (\<lambda>c. c = CHR ''0'') (tl (dropWhile (\<lambda>c. c \<noteq> CHR ''.'') str))")
    case all: True
    then show ?thesis
      using d0 by (simp add: trimZerosFromEnd_def idx after ex Let_def)
  next
    case some: False
    then have "\<not> list_all (\<lambda>c. c = CHR ''0'') (drop (nat (d + 1)) str)"
      using d0 by (simp add: d_def nat_add_distrib drop_Suc_takeWhile)
    then obtain j where j: "int (nat (d + 1)) \<le> j" "j < int (length str)" "str ! nat j \<noteq> CHR ''0''"
      using not_all_zero_nth by blast
    then have dj: "d < j" using d0 by simp
    note tl = trim_loop_strip [OF dj j(2) j(3) d0, folded t_def]
    have ne: "t \<noteq> []" using tl(2) d0 by auto
    have lt: "int (length t) \<le> int (length str)"
      using arg_cong [OF tl(5), of length] by simp
    have ch: "charAt str (int (length t) - 1) = [last t]"
      using tl(2) tl(4) d0 lt unfolding charAt_def by auto
    have res1: "js_substring str 0 (int (length t)) = t"
      by (simp add: js_substring_0 tl(5))
    have "take (length t - 1) str = take (length t - 1) (take (length t) str)"
      by simp
    then have "take (length t - 1) str = butlast t"
      by (simp only: tl(5) butlast_conv_take)
    then have res2: "js_substring str 0 (int (length t) - 1) = butlast t"
      using ne by (simp add: js_substring_0 nat_diff_distrib')
    have "trimZerosFromEnd str = (if last t = CHR ''.'' then butlast t else t)"
      using d0 some True
      by (simp add: trimZerosFromEnd_def idx after ex Let_def tl(1) ch res1 res2)
    then show ?thesis
      using some True by (simp add: t_def Let_def)
  qed
qed

theorem trimZerosFromEnd_spec_witness:
  "trimZerosFromEnd ''12.500'' = ''12.5'' \<and> trimZerosFromEnd ''7.00'' = ''7.00'' \<and>
   trimZerosFromEnd ''1.5.00'' = ''1.5''"
  using trimZerosFromEnd_spec [of "''12.500''"] trimZerosFromEnd_spec [of "''7.00''"]
    trimZerosFromEnd_spec [of "''1.5.00''"]
  by simp

text \<open>
  Claim C8, as amended. For a breakpoint \<open>num \<ge> 0\<close>, \<open>truncateString\<close> returns the string
  unchanged when its length is at most \<open>num\<close>, and otherwise its first \<open>num\<close> characters
  followed by \<open>"..."\<close>; the result has at most \<open>num + 3\<close> characters. An omitted
  breakpoint is 8.
\<close>

theorem truncateString_nonneg:
  "0 \<le> num \<Longrightarrow>
     truncateString str (Some num) =
       (if int (length str) \<le> num then str else take (nat num) str @ ''...'') \<and>
     int (length (truncateString str (Some num))) \<le> num + 3 \<and>
     truncateString str None = truncateString str (Some 8)"
  by (auto simp add: truncateString_def js_slice_0_nonneg)

theorem truncateString_nonneg_witness:
  "(0::int) \<le> 4 \<and> truncateString ''abcdefghij'' (Some 4) = ''abcd...'' \<and>
   int (length (truncateString ''abcdefghij'' (Some 4))) \<le> 4 + 3"
  using truncateString_nonneg [of 4 "''abcdefghij''"] by simp

text \<open>
  Claim C8 as stated fails for a negative breakpoint: \<open>slice(0, -1)\<close> drops the last
  character only, so the result is longer than \<open>num + 3\<close> and is not the first \<open>num\<close>
  characters.
\<close>

theorem truncateString_negative_counterexample:
  "truncateString ''abcdef'' (Some (- 1)) = ''abcde...'' \<and>
   \<not> int (length (truncateString ''abcdef'' (Some (- 1)))) \<le> - 1 + 3"
  by (simp add: truncateString_def js_slice_def)

section \<open>Properties of the decimal arithmetic\<close>

lemma chopPositive_mult: "chopPositive (x * precisionMultiplier) = x"
  by (simp add: chopPositive_def precisionMultiplier_def)

lemma chop_mult: "chopPrecisionAndRound (x * precisionMultiplier) = x"
proof (cases "x < 0")
  case True
  then have neg: "x * precisionMultiplier < 0"
    by (simp add: precisionMultiplier_def)
  have "\<bar>x * precisionMultiplier\<bar> = (- x) * precisionMultiplier"
    using True by (simp add: precisionMultiplier_def)
  then have "chopPositive \<bar>x * precisionMultiplier\<bar> = - x"
    by (simp only: chopPositive_mult)
  then show ?thesis
    using neg by (simp only: chopPrecisionAndRound_def if_True)
next
  case False
  then have "\<not> x * precisionMultiplier < 0"
    by (simp add: precisionMultiplier_def)
  then show ?thesis
    by (simp add: chopPrecisionAndRound_def chopPositive_mult)
qed

lemma chopPositive_bounds:
  assumes "0 \<le> d"
  shows "2 * d - precisionMultiplier \<le> 2 * (chopPositive d * precisionMultiplier)"
    and "2 * (chopPositive d * precisionMultiplier) \<le> 2 * d + precisionMultiplier"
proof -
  define q where "q = d div 1000000000000000000"
  define r where "r = d mod 1000000000000000000"
  have d: "d = q * 1000000000000000000 + r" and r: "0 \<le> r" "r < 1000000000000000000"
    unfolding q_def r_def by simp_all
  have c: "chopPositive d = q \<or> chopPositive d = q + 1"
    and c0: "r < 500000000000000000 \<Longrightarrow> chopPositive d = q"
    and c1: "r > 500000000000000000 \<Longrightarrow> chopPositive d = q + 1"
    by (auto simp add: chopPositive_def precisionMultiplier_def Let_def q_def r_def)
  show "2 * d - precisionMultiplier \<le> 2 * (chopPositive d * precisionMultiplier)"
    using c c0 c1 r unfolding precisionMultiplier_def d
    by (cases "r < 500000000000000000"; cases "r > 500000000000000000") auto
  show "2 * (chopPositive d * precisionMultiplier) \<le> 2 * d + precisionMultiplier"
    using c c0 c1 r unfolding precisionMultiplier_def d
    by (cases "r < 500000000000000000"; cases "r > 500000000000000000") auto
qed

lemma chop_nonneg: "0 \<le> d \<Longrightarrow> chopPrecisionAndRound d = chopPositive d"
  by (simp add: chopPrecisionAndRound_def)

lemma tdiv_nonneg: "0 \<le> a \<Longrightarrow> 0 < b \<Longrightarrow> tdiv a b = a div b"
  by (cases "a = 0") (simp_all add: tdiv_def)

lemma tdiv_mult: "b \<noteq> 0 \<Longrightarrow> tdiv (a * b) b = a"
proof -
  assume b: "b \<noteq> 0"
  then have "sgn b * sgn b = 1"
    by (cases "b < 0") auto
  then have "sgn a * sgn b * sgn b * \<bar>a\<bar> = sgn a * \<bar>a\<bar>"
    by (simp add: mult.assoc)
  also have "\<dots> = a"
    by (simp add: mult.commute abs_sgn)
  finally show ?thesis
    using b by (simp add: tdiv_def abs_mult sgn_mult mult.assoc [symmetric])
qed

lemma chop_bounds: "\<bar>2 * (chopPrecisionAndRound d * precisionMultiplier) - 2 * d\<bar> \<le> precisionMultiplier"
proof (cases "d < 0")
  case True
  then have "0 \<le> \<bar>d\<bar>" by simp
  from chopPositive_bounds [OF this] True show ?thesis
    by (simp add: chopPrecisionAndRound_def)
next
  case False
  then have "0 \<le> d" by simp
  from chopPositive_bounds [OF this] False show ?thesis
    by (simp add: chopPrecisionAndRound_def)
qed

section \<open>Properties of the reward aggregation\<close>

lemma coin_denom_add [simp]: "coin_denom (coin_add a b) = coin_denom a"
  by (simp add: coin_add_def coin_denom_def)

lemma total_snoc:
  "total k (cs @ [x]) = (if coin_denom x = k then total k cs + cp_amount x else total k cs)"
  by (simp add: total_def)

lemma agg_inv_step:
  assumes "agg_inv acc cs"
  shows "agg_inv (sumByDenoms_step acc x) (cs @ [x])"
proof -
  from assms have dist: "distinct (map fst acc)"
    and keys: "fst ` set acc = coin_denom ` set cs"
    and vals: "\<And>k c. map_of acc k = Some c \<Longrightarrow> coin_denom c = k \<and> cp_amount c = total k cs"
    unfolding agg_inv_def by blast+
  define v where "v = (case map_of acc (coin_denom x) of Some current \<Rightarrow> coin_add current x | None \<Rightarrow> x)"
  have step: "sumByDenoms_step acc x = AList.update (coin_denom x) v acc"
    unfolding sumByDenoms_step_def v_def by (simp split: option.splits)
  have vd: "coin_denom v = coin_denom x"
    unfolding v_def using vals by (auto split: option.splits)
  have va: "cp_amount v = total (coin_denom x) cs + cp_amount x"
  proof (cases "map_of acc (coin_denom x)")
    case None
    then have "coin_denom x \<notin> coin_denom ` set cs"
      using keys by (simp add: map_of_eq_None_iff)
    then have "\<forall>c\<in>set cs. coin_denom c \<noteq> coin_denom x"
      by (metis imageI)
    then have "filter (\<lambda>c. coin_denom c = coin_denom x) cs = []"
      by (simp add: filter_empty_conv)
    then show ?thesis
      using None by (simp add: v_def total_def)
  next
    case (Some current)
    then show ?thesis
      using vals [OF Some] by (simp add: v_def coin_add_def)
  qed
  have "distinct (map fst (AList.update (coin_denom x) v acc))"
    using dist by (rule distinct_update)
  moreover have "fst ` set (AList.update (coin_denom x) v acc) = coin_denom ` set (cs @ [x])"
    using keys by (auto simp add: dom_update)
  moreover have "coin_denom c = k \<and> cp_amount c = total k (cs @ [x])"
    if "map_of (AList.update (coin_denom x) v acc) k = Some c" for k c
    using that vals [of k c] vd va
    by (auto simp add: update_conv' total_snoc split: if_splits)
  ultimately show ?thesis
    unfolding agg_inv_def step by blast
qed

lemma agg_inv_foldl:
  "agg_inv acc cs \<Longrightarrow> agg_inv (foldl sumByDenoms_step acc xs) (cs @ xs)"
proof (induction xs arbitrary: acc cs)
  case Nil
  then show ?case by simp
next
  case (Cons x xs)
  from Cons.IH [OF agg_inv_step [OF Cons.prems, of x]] show ?case by simp
qed

lemma agg_inv_empty: "agg_inv [] []"
  by (simp add: agg_inv_def)

lemma agg_values:
  assumes "agg_inv acc cs"
  shows "distinct (map coin_denom (map snd acc))"
    and "set (map coin_denom (map snd acc)) = coin_denom ` set cs"
    and "\<And>c. c \<in> set (map snd acc) \<Longrightarrow> cp_amount c = total (coin_denom c) cs"
proof -
  from assms have dist: "distinct (map fst acc)"
    and keys: "fst ` set acc = coin_denom ` set cs"
    and vals: "\<And>k c. map_of acc k = Some c \<Longrightarrow> coin_denom c = k \<and> cp_amount c = total k cs"
    unfolding agg_inv_def by blast+
  have entry: "coin_denom c = k \<and> cp_amount c = total k cs" if "(k, c) \<in> set acc" for k c
    using that dist vals by simp
  have same: "map coin_denom (map snd acc) = map fst acc"
    using entry by auto
  show "distinct (map coin_denom (map snd acc))"
    using dist by (simp only: same)
  show "set (map coin_denom (map snd acc)) = coin_denom ` set cs"
    using keys by (simp only: same set_map)
  show "cp_amount c = total (coin_denom c) cs" if "c \<in> set (map snd acc)" for c
    using that entry by auto
qed


lemma total_append: "total k (xs @ ys) = total k xs + total k ys"
  by (simp add: total_def)

lemma mapRaw_Cons:
  "mapRawAssetsToCoinPretty g (Some (r # rs)) =
     (case g (denom r) of None \<Rightarrow> mapRawAssetsToCoinPretty g (Some rs)
      | Some asset \<Rightarrow> newCoinPretty asset (amount r) # mapRawAssetsToCoinPretty g (Some rs))"
  by (simp add: mapRawAssetsToCoinPretty_def map_filter_simps split: option.splits)

lemma mapRaw_Nil: "mapRawAssetsToCoinPretty g (Some []) = []"
  by (simp add: mapRawAssetsToCoinPretty_def map_filter_simps)

lemma mapRaw_entries:
  "mapRawAssetsToCoinPretty g rawAssets = mapRawAssetsToCoinPretty g (Some (entries rawAssets))"
  by (cases rawAssets) (simp_all add: entries_def mapRawAssetsToCoinPretty_def map_filter_simps)

lemma coin_denom_new [simp]: "coin_denom (newCoinPretty asset a) = coinMinimalDenom asset"
  by (simp add: coin_denom_def newCoinPretty_def)

lemma cp_amount_new [simp]: "cp_amount (newCoinPretty asset a) = a"
  by (simp add: newCoinPretty_def)

lemma mapRaw_denoms:
  "coin_denom ` set (mapRawAssetsToCoinPretty g (Some rs)) =
     {d. \<exists>r\<in>set rs. resolved_denom g r = Some d}"
proof (induction rs)
  case Nil
  then show ?case by (simp add: mapRaw_Nil)
next
  case (Cons r rs)
  then show ?case
    by (auto simp add: mapRaw_Cons resolved_denom_def split: option.splits)
qed

lemma mapRaw_total:
  "total k (mapRawAssetsToCoinPretty g (Some rs)) =
     (\<Sum>r\<leftarrow>rs. if resolved_denom g r = Some k then amount r else 0)"
proof (induction rs)
  case Nil
  then show ?case by (simp add: mapRaw_Nil total_def)
next
  case (Cons r rs)
  then show ?case
    by (auto simp add: mapRaw_Cons resolved_denom_def total_def split: option.splits)
qed

lemma steps_same: "earnedCoinDenomMap_step = sumByDenoms_step"
  by (intro ext) (simp add: earnedCoinDenomMap_step_def sumByDenoms_step_def)

text \<open>
  Claim C2. \<open>getTotalClaimableRewards\<close> returns one coin per minimal denomination that
  an entry of either raw list resolves to, no denomination twice, and the amount of
  each coin is the sum of the amounts of all entries of both lists that resolve to its
  denomination; \<open>getTotalEarned\<close> is the same aggregation of the total spread and total
  incentive rewards.
\<close>

theorem total_rewards_aggregate:
  fixes getAsset incentive spread
  defines "raws \<equiv> entries spread @ entries incentive"
    and "out \<equiv> getTotalClaimableRewards getAsset incentive spread"
  shows "distinct (map coin_denom out) \<and>
     set (map coin_denom out) = {d. \<exists>r\<in>set raws. resolved_denom getAsset r = Some d} \<and>
     (\<forall>c\<in>set out. cp_amount c =
        (\<Sum>r\<leftarrow>raws. if resolved_denom getAsset r = Some (coin_denom c) then amount r else 0)) \<and>
     getTotalEarned getAsset spread incentive = out"
proof -
  define cs where "cs = mapRawAssetsToCoinPretty getAsset (Some (entries spread)) @
      mapRawAssetsToCoinPretty getAsset (Some (entries incentive))"
  define acc where "acc = foldl sumByDenoms_step [] cs"
  have out: "out = map snd acc"
    unfolding out_def acc_def cs_def getTotalClaimableRewards_def Let_def
    by (simp only: mapRaw_entries [of getAsset spread] mapRaw_entries [of getAsset incentive])
  have inv: "agg_inv acc cs"
    unfolding acc_def using agg_inv_foldl [OF agg_inv_empty, of cs] by simp
  have den: "coin_denom ` set cs = {d. \<exists>r\<in>set raws. resolved_denom getAsset r = Some d}"
    unfolding cs_def raws_def by (auto simp add: image_Un mapRaw_denoms)
  have tot: "total k cs = (\<Sum>r\<leftarrow>raws. if resolved_denom getAsset r = Some k then amount r else 0)" for k
    unfolding cs_def raws_def by (simp add: total_append mapRaw_total)
  have "getTotalEarned getAsset spread incentive = out"
    unfolding out_def getTotalEarned_def getTotalClaimableRewards_def steps_same by simp
  moreover have "distinct (map coin_denom out)"
    unfolding out using inv by (rule agg_values(1))
  moreover have "set (map coin_denom out) = {d. \<exists>r\<in>set raws. resolved_denom getAsset r = Some d}"
    unfolding out using agg_values(2) [OF inv] den by simp
  moreover have "\<forall>c\<in>set out. cp_amount c =
        (\<Sum>r\<leftarrow>raws. if resolved_denom getAsset r = Some (coin_denom c) then amount r else 0)"
    unfolding out using agg_values(3) [OF inv] tot by simp
  ultimately show ?thesis by blast
qed

theorem total_rewards_aggregate_witness:
  "map (\<lambda>c. (coin_denom c, cp_amount c))
     (getTotalClaimableRewards
        (\<lambda>d. if d = ''unknown'' then None else Some \<lparr>coinMinimalDenom = d, coinDecimals = 6\<rparr>)
        (Some [\<lparr>amount = 5, denom = ''uosmo''\<rparr>, \<lparr>amount = 1, denom = ''unknown''\<rparr>,
               \<lparr>amount = 7, denom = ''uion''\<rparr>])
        (Some [\<lparr>amount = 2, denom = ''uion''\<rparr>, \<lparr>amount = 3, denom = ''uosmo''\<rparr>]))
   = [(''uion'', 9), (''uosmo'', 8)] \<and>
   getTotalEarned
        (\<lambda>d. if d = ''unknown'' then None else Some \<lparr>coinMinimalDenom = d, coinDecimals = 6\<rparr>)
        (Some [\<lparr>amount = 2, denom = ''uion''\<rparr>, \<lparr>amount = 3, denom = ''uosmo''\<rparr>])
        (Some [\<lparr>amount = 5, denom = ''uosmo''\<rparr>, \<lparr>amount = 1, denom = ''unknown''\<rparr>,
               \<lparr>amount = 7, denom = ''uion''\<rparr>])
   = getTotalClaimableRewards
        (\<lambda>d. if d = ''unknown'' then None else Some \<lparr>coinMinimalDenom = d, coinDecimals = 6\<rparr>)
        (Some [\<lparr>amount = 5, denom = ''uosmo''\<rparr>, \<lparr>amount = 1, denom = ''unknown''\<rparr>,
               \<lparr>amount = 7, denom = ''uion''\<rparr>])
        (Some [\<lparr>amount = 2, denom = ''uion''\<rparr>, \<lparr>amount = 3, denom = ''uosmo''\<rparr>])"
  using total_rewards_aggregate
     [of "\<lambda>d. if d = ''unknown'' then None else Some \<lparr>coinMinimalDenom = d, coinDecimals = 6\<rparr>"
         "Some [\<lparr>amount = 5, denom = ''uosmo''\<rparr>, \<lparr>amount = 1, denom = ''unknown''\<rparr>,
               \<lparr>amount = 7, denom = ''uion''\<rparr>]"
         "Some [\<lparr>amount = 2, denom = ''uion''\<rparr>, \<lparr>amount = 3, denom = ''uosmo''\<rparr>]"]
  by (simp add: getTotalClaimableRewards_def mapRawAssetsToCoinPretty_def map_filter_simps
      sumByDenoms_step_def coin_denom_def coin_add_def newCoinPretty_def)

section \<open>Properties of the price input\<close>

lemma remove_add_pos:
  "removeCurrencyDecimals (Dec (10 ^ k * precisionMultiplier))
     (addCurrencyDecimals (Dec (10 ^ k * precisionMultiplier)) p) = Some p"
proof -
  have nz: "(10::int) ^ k * precisionMultiplier \<noteq> 0"
    by (simp add: precisionMultiplier_def)
  have "atomics p * (10 ^ k * precisionMultiplier) = (atomics p * 10 ^ k) * precisionMultiplier"
    by simp
  then have add: "addCurrencyDecimals (Dec (10 ^ k * precisionMultiplier)) p = Dec (atomics p * 10 ^ k)"
    by (simp only: addCurrencyDecimals_def dec_mul_def Dec.sel chop_mult)
  have "atomics p * 10 ^ k * precisionMultiplier * precisionMultiplier =
      (atomics p * precisionMultiplier) * (10 ^ k * precisionMultiplier)"
    by simp
  then have "tdiv (atomics p * 10 ^ k * precisionMultiplier * precisionMultiplier)
       (10 ^ k * precisionMultiplier) = atomics p * precisionMultiplier"
    using tdiv_mult [OF nz] by (simp only:)
  then show ?thesis
    using nz by (simp add: add removeCurrencyDecimals_def dec_quo_def chop_mult)
qed

lemma add_remove_neg:
  assumes "j \<le> 18"
  shows "\<exists>q. removeCurrencyDecimals (Dec (10 ^ (18 - j))) p = Some q \<and>
     addCurrencyDecimals (Dec (10 ^ (18 - j))) q = p"
proof -
  have nz: "(10::int) ^ (18 - j) \<noteq> 0"
    by simp
  have P: "precisionMultiplier = 10 ^ j * 10 ^ (18 - j)"
    using assms by (simp add: precisionMultiplier_def flip: power_add)
  have "atomics p * precisionMultiplier * precisionMultiplier =
      (atomics p * 10 ^ j * precisionMultiplier) * 10 ^ (18 - j)"
    by (subst (2) P) simp
  then have "tdiv (atomics p * precisionMultiplier * precisionMultiplier) (10 ^ (18 - j)) =
      (atomics p * 10 ^ j) * precisionMultiplier"
    using tdiv_mult [OF nz] by (simp only:)
  then have rem: "removeCurrencyDecimals (Dec (10 ^ (18 - j))) p = Some (Dec (atomics p * 10 ^ j))"
    using nz by (simp add: removeCurrencyDecimals_def dec_quo_def chop_mult)
  have "atomics p * 10 ^ j * 10 ^ (18 - j) = atomics p * precisionMultiplier"
    by (subst P) simp
  then have "chopPrecisionAndRound (atomics p * 10 ^ j * 10 ^ (18 - j)) = atomics p"
    by (simp only: chop_mult)
  then have "addCurrencyDecimals (Dec (10 ^ (18 - j))) (Dec (atomics p * 10 ^ j)) = p"
    by (simp add: addCurrencyDecimals_def dec_mul_def)
  with rem show ?thesis by blast
qed

text \<open>
  Claim C6, as amended. Let the multiplier be ten to the power of the base decimals
  minus the quote decimals (it exists when the quote currency has at most 18 decimals
  more than the base currency). When the base currency has at least as many decimals
  as the quote currency, removing the currency decimals after adding them gives the
  price back; when it has at most as many, adding the currency decimals after removing
  them gives the price back.
\<close>

theorem currency_decimals_roundtrip:
  "int (decimalsOrZero quote) - int (decimalsOrZero base) \<le> 18 \<Longrightarrow>
   \<exists>m. multiplicationQuoteOverBase base quote = Some m \<and>
     (decimalsOrZero quote \<le> decimalsOrZero base \<longrightarrow>
        removeCurrencyDecimals m (addCurrencyDecimals m p) = Some p) \<and>
     (decimalsOrZero base \<le> decimalsOrZero quote \<longrightarrow>
        (\<exists>q. removeCurrencyDecimals m p = Some q \<and> addCurrencyDecimals m q = p))"
proof (cases "decimalsOrZero quote \<le> decimalsOrZero base")
  case True
  define k where "k = decimalsOrZero base - decimalsOrZero quote"
  have m: "multiplicationQuoteOverBase base quote = Some (Dec (10 ^ k * precisionMultiplier))"
    using True by (simp add: multiplicationQuoteOverBase_def getTenExponentN_def k_def nat_diff_distrib')
  show ?thesis
  proof (cases "decimalsOrZero base \<le> decimalsOrZero quote")
    case False
    then show ?thesis using m remove_add_pos [of k p] by simp
  next
    case eq: True
    with True have k0: "k = 0" by (simp add: k_def)
    have "\<exists>q. removeCurrencyDecimals (Dec (10 ^ k * precisionMultiplier)) p = Some q \<and>
       addCurrencyDecimals (Dec (10 ^ k * precisionMultiplier)) q = p"
      using add_remove_neg [of 0 p] by (simp add: k0 precisionMultiplier_def)
    then show ?thesis using m remove_add_pos [of k p] by simp
  qed
next
  case False
  assume le: "int (decimalsOrZero quote) - int (decimalsOrZero base) \<le> 18"
  define j where "j = decimalsOrZero quote - decimalsOrZero base"
  have j: "j \<le> 18" "0 < j" using le False by (simp_all add: j_def)
  have "nat (18 + (int (decimalsOrZero base) - int (decimalsOrZero quote))) = 18 - j"
    using False le by (simp add: j_def)
  then have m: "multiplicationQuoteOverBase base quote = Some (Dec (10 ^ (18 - j)))"
    using False le by (simp add: multiplicationQuoteOverBase_def getTenExponentN_def)
  show ?thesis
    using m add_remove_neg [OF j(1), of p] False by simp
qed

theorem currency_decimals_roundtrip_witness:
  "multiplicationQuoteOverBase
      (Some \<lparr>coinMinimalDenom = ''wei'', coinDecimals = 18\<rparr>)
      (Some \<lparr>coinMinimalDenom = ''uusdc'', coinDecimals = 6\<rparr>) = Some (Dec (10 ^ 30)) \<and>
   removeCurrencyDecimals (Dec (10 ^ 30))
      (addCurrencyDecimals (Dec (10 ^ 30)) (Dec 1000000100000000000)) =
     Some (Dec 1000000100000000000) \<and>
   multiplicationQuoteOverBase
      (Some \<lparr>coinMinimalDenom = ''uusdc'', coinDecimals = 6\<rparr>)
      (Some \<lparr>coinMinimalDenom = ''wei'', coinDecimals = 18\<rparr>) = Some (Dec (10 ^ 6)) \<and>
   removeCurrencyDecimals (Dec (10 ^ 6)) (Dec 1000000100000000000) =
     Some (Dec 1000000100000000000000000000000) \<and>
   addCurrencyDecimals (Dec (10 ^ 6)) (Dec 1000000100000000000000000000000) =
     Dec 1000000100000000000"
  using currency_decimals_roundtrip
     [of "Some \<lparr>coinMinimalDenom = ''uusdc'', coinDecimals = 6\<rparr>"
         "Some \<lparr>coinMinimalDenom = ''wei'', coinDecimals = 18\<rparr>" "Dec 1000000100000000000"]
    currency_decimals_roundtrip
     [of "Some \<lparr>coinMinimalDenom = ''wei'', coinDecimals = 18\<rparr>"
         "Some \<lparr>coinMinimalDenom = ''uusdc'', coinDecimals = 6\<rparr>" "Dec 1000000100000000000"]
  by (simp add: multiplicationQuoteOverBase_def decimalsOrZero_def getTenExponentN_def
      precisionMultiplier_def removeCurrencyDecimals_def addCurrencyDecimals_def dec_quo_def
      dec_mul_def tdiv_def chopPrecisionAndRound_def chopPositive_def)

text \<open>
  Claim C6 as stated fails: with 18 base decimals and 6 quote decimals the multiplier is
  \<open>10\<^sup>1\<^sup>2\<close>, removing the currency decimals of the price \<open>1.0000001\<close> rounds
  \<open>0.0000000000010000001\<close> to the 18 decimals \<open>0.000000000001\<close>, and adding them again gives
  \<open>1\<close>.
\<close>

theorem currency_decimals_roundtrip_counterexample:
  "multiplicationQuoteOverBase
      (Some \<lparr>coinMinimalDenom = ''wei'', coinDecimals = 18\<rparr>)
      (Some \<lparr>coinMinimalDenom = ''uusdc'', coinDecimals = 6\<rparr>) = Some (Dec (10 ^ 30)) \<and>
   removeCurrencyDecimals (Dec (10 ^ 30)) (Dec 1000000100000000000) = Some (Dec 1000000) \<and>
   addCurrencyDecimals (Dec (10 ^ 30)) (Dec 1000000) = Dec 1000000000000000000 \<and>
   Dec 1000000000000000000 \<noteq> Dec 1000000100000000000"
  by (simp add: multiplicationQuoteOverBase_def decimalsOrZero_def getTenExponentN_def
      precisionMultiplier_def removeCurrencyDecimals_def addCurrencyDecimals_def dec_quo_def
      dec_mul_def tdiv_def chopPrecisionAndRound_def chopPositive_def)

section \<open>Properties of the add-liquidity state\<close>

text \<open>
  Claim C10. The error of the state is an \<open>InvalidRangeError\<close> exactly when
  \<open>fullRange\<close> is off and \<open>range[0] \<ge> range[1]\<close>; otherwise it is the error of the
  quote amount input when \<open>quoteDepositOnly\<close> holds, else that of the base amount input
  when \<open>baseDepositOnly\<close> holds, else the first defined of the base and the quote input
  error, or undefined.
\<close>

theorem error_memo_spec:
  "((\<exists>m. error_memo fullRange range_v (quoteDepositOnly cp fullRange range_v)
            (baseDepositOnly cp fullRange range_v) quoteError baseError
          = Some (InvalidRangeError m))
      \<longleftrightarrow> \<not> fullRange \<and> dec_gte (fst range_v) (snd range_v)) \<and>
   (if \<not> fullRange \<and> dec_gte (fst range_v) (snd range_v)
    then error_memo fullRange range_v (quoteDepositOnly cp fullRange range_v)
            (baseDepositOnly cp fullRange range_v) quoteError baseError
          = Some (InvalidRangeError ''lower range must be less than upper range.'')
    else error_memo fullRange range_v (quoteDepositOnly cp fullRange range_v)
            (baseDepositOnly cp fullRange range_v) quoteError baseError
          = map_option AmountInputError
              (if quoteDepositOnly cp fullRange range_v then quoteError
               else if baseDepositOnly cp fullRange range_v then baseError
               else if baseError \<noteq> None then baseError
               else quoteError))"
  by (cases baseError; cases quoteError) (auto simp add: error_memo_def)

theorem error_memo_spec_witness:
  "error_memo False (Dec 3, Dec 2) (quoteDepositOnly (Dec 5) False (Dec 3, Dec 2))
      (baseDepositOnly (Dec 5) False (Dec 3, Dec 2)) (Some ''q'') (Some ''b'')
     = Some (InvalidRangeError ''lower range must be less than upper range.'') \<and>
   error_memo False (Dec 2, Dec 3) (quoteDepositOnly (Dec 5) False (Dec 2, Dec 3))
      (baseDepositOnly (Dec 5) False (Dec 2, Dec 3)) (Some ''q'') (Some ''b'')
     = Some (AmountInputError ''q'') \<and>
   error_memo False (Dec 6, Dec 7) (quoteDepositOnly (Dec 5) False (Dec 6, Dec 7))
      (baseDepositOnly (Dec 5) False (Dec 6, Dec 7)) (Some ''q'') (Some ''b'')
     = Some (AmountInputError ''b'') \<and>
   error_memo False (Dec 4, Dec 7) (quoteDepositOnly (Dec 5) False (Dec 4, Dec 7))
      (baseDepositOnly (Dec 5) False (Dec 4, Dec 7)) (Some ''q'') None
     = Some (AmountInputError ''q'')"
  using error_memo_spec [of False "(Dec 3, Dec 2)" "Dec 5" "Some ''q''" "Some ''b''"]
    error_memo_spec [of False "(Dec 2, Dec 3)" "Dec 5" "Some ''q''" "Some ''b''"]
    error_memo_spec [of False "(Dec 6, Dec 7)" "Dec 5" "Some ''q''" "Some ''b''"]
    error_memo_spec [of False "(Dec 4, Dec 7)" "Dec 5" "Some ''q''" "None"]
  by (simp add: quoteDepositOnly_def baseDepositOnly_def dec_gte_def dec_gt_def dec_lt_def dec_isZero_def)

section \<open>Properties of the deposit percentages\<close>

lemma div_parts_sum:
  fixes a b t :: int
  assumes "0 < t" "a + b = n * t"
  shows "a div t + b div t = n \<or> a div t + b div t = n - 1"
proof -
  have "(a + b) div t = a div t + b div t + (a mod t + b mod t) div t"
    by (rule div_add1_eq)
  moreover have "(a + b) div t = n"
    using assms by simp
  moreover have "0 \<le> a mod t + b mod t" "a mod t + b mod t < 2 * t"
    using assms(1) pos_mod_bound [of t a] pos_mod_bound [of t b]
      pos_mod_sign [of t a] pos_mod_sign [of t b] by linarith+
  then have "(a mod t + b mod t) div t = 0 \<or> (a mod t + b mod t) div t = 1"
  proof (cases "a mod t + b mod t < t")
    case True
    then show ?thesis using \<open>0 \<le> a mod t + b mod t\<close> by (simp add: div_pos_pos_trivial)
  next
    case False
    then have "(a mod t + b mod t) div t = (a mod t + b mod t - t) div t + 1"
      using assms(1) by (intro div_pos_geq) simp_all
    moreover have "(a mod t + b mod t - t) div t = 0"
      using False \<open>a mod t + b mod t < 2 * t\<close> by (intro div_pos_pos_trivial) simp_all
    ultimately show ?thesis by simp
  qed
  ultimately show ?thesis by linarith
qed


lemma shares_sum:
  assumes v: "0 \<le> v0" "0 \<le> v1" and t: "v0 + v1 \<noteq> 0"
  defines "s0 \<equiv> chopPrecisionAndRound (tdiv (v0 * precisionMultiplier * precisionMultiplier) (v0 + v1))"
    and "s1 \<equiv> chopPrecisionAndRound (tdiv (v1 * precisionMultiplier * precisionMultiplier) (v0 + v1))"
  shows "\<bar>s0 + s1 - precisionMultiplier\<bar> \<le> 1"
proof -
  define y0 where "y0 = (v0 * precisionMultiplier * precisionMultiplier) div (v0 + v1)"
  define y1 where "y1 = (v1 * precisionMultiplier * precisionMultiplier) div (v0 + v1)"
  have tpos: "0 < v0 + v1" using v t by linarith
  have n0: "0 \<le> v0 * precisionMultiplier * precisionMultiplier"
    and n1: "0 \<le> v1 * precisionMultiplier * precisionMultiplier"
    using v by (simp_all add: precisionMultiplier_def)
  have y0: "0 \<le> y0" and y1: "0 \<le> y1"
    unfolding y0_def y1_def using n0 n1 tpos by (simp_all add: pos_imp_zdiv_nonneg_iff)
  have s0: "s0 = chopPositive y0" and s1: "s1 = chopPositive y1"
    unfolding s0_def s1_def y0_def y1_def
    using tdiv_nonneg [OF n0 tpos] tdiv_nonneg [OF n1 tpos] chop_nonneg y0 y1
    by (simp_all add: y0_def y1_def)
  have "v0 * precisionMultiplier * precisionMultiplier + v1 * precisionMultiplier * precisionMultiplier
      = (precisionMultiplier * precisionMultiplier) * (v0 + v1)"
    by (simp add: algebra_simps)
  from div_parts_sum [OF tpos this]
  have sum: "y0 + y1 = 1000000000000000000000000000000000000 \<or>
      y0 + y1 = 1000000000000000000000000000000000000 - 1"
    by (simp add: y0_def y1_def precisionMultiplier_def)
  note b0 = chopPositive_bounds [OF y0, folded s0, unfolded precisionMultiplier_def]
  note b1 = chopPositive_bounds [OF y1, folded s1, unfolded precisionMultiplier_def]
  have "s0 + s1 \<le> 1000000000000000000 + 1"
    using b0 b1 sum by auto
  moreover have "1000000000000000000 - 1 \<le> s0 + s1"
    using b0 b1 sum by auto
  ultimately show ?thesis
    by (simp add: precisionMultiplier_def)
qed


text \<open>
  Claim C9, as amended. \<open>baseDepositOnly\<close> and \<open>quoteDepositOnly\<close> are never both true.
  The deposit percentages are \<open>[0, 0]\<close> when a fiat value is missing, else \<open>[1, 0]\<close> when
  \<open>baseDepositOnly\<close>, else \<open>[0, 1]\<close> when \<open>quoteDepositOnly\<close>, else \<open>[0, 0]\<close> when the
  total fiat value is zero, and otherwise the two shares of the total, each rounded to
  18 decimals; for fiat values that are not negative the two shares sum to 1 up to one
  unit of the 18th decimal.
\<close>

theorem deposit_only_and_percentages:
  "\<not> (baseDepositOnly cp fullRange range_v \<and> quoteDepositOnly cp fullRange range_v) \<and>
   (value0 = None \<or> value1 = None \<longrightarrow>
      depositPercentages b q value1 value0 = Some (newDec 0, newDec 0)) \<and>
   depositPercentages True q (Some v1) (Some v0) = Some (newDec 1, newDec 0) \<and>
   depositPercentages False True (Some v1) (Some v0) = Some (newDec 0, newDec 1) \<and>
   (dec_isZero (dec_add v0 v1) \<longrightarrow>
      depositPercentages False False (Some v1) (Some v0) = Some (newDec 0, newDec 0)) \<and>
   (\<not> dec_isZero (dec_add v0 v1) \<longrightarrow>
      (\<exists>share0 share1.
         depositPercentages False False (Some v1) (Some v0) = Some (share0, share1) \<and>
         dec_quo v0 (dec_add v0 v1) = Some share0 \<and>
         dec_quo v1 (dec_add v0 v1) = Some share1 \<and>
         (0 \<le> atomics v0 \<and> 0 \<le> atomics v1 \<longrightarrow>
            \<bar>atomics (dec_add share0 share1) - atomics (newDec 1)\<bar> \<le> 1)))"
proof -
  have both: "\<not> (baseDepositOnly cp fullRange range_v \<and> quoteDepositOnly cp fullRange range_v)"
    by (auto simp add: baseDepositOnly_def quoteDepositOnly_def dec_lt_def dec_gt_def)
  have missing: "value0 = None \<or> value1 = None \<longrightarrow>
      depositPercentages b q value1 value0 = Some (newDec 0, newDec 0)"
    by (cases value0; cases value1) (simp_all add: depositPercentages_def)
  have base: "depositPercentages True q (Some v1) (Some v0) = Some (newDec 1, newDec 0)"
    by (simp add: depositPercentages_def)
  have quote: "depositPercentages False True (Some v1) (Some v0) = Some (newDec 0, newDec 1)"
    by (simp add: depositPercentages_def)
  have zero: "dec_isZero (dec_add v0 v1) \<longrightarrow>
      depositPercentages False False (Some v1) (Some v0) = Some (newDec 0, newDec 0)"
    by (simp add: depositPercentages_def)
  have shares: "\<exists>share0 share1.
         depositPercentages False False (Some v1) (Some v0) = Some (share0, share1) \<and>
         dec_quo v0 (dec_add v0 v1) = Some share0 \<and>
         dec_quo v1 (dec_add v0 v1) = Some share1 \<and>
         (0 \<le> atomics v0 \<and> 0 \<le> atomics v1 \<longrightarrow>
            \<bar>atomics (dec_add share0 share1) - atomics (newDec 1)\<bar> \<le> 1)"
    if nz: "\<not> dec_isZero (dec_add v0 v1)"
  proof -
    from nz have t: "atomics v0 + atomics v1 \<noteq> 0"
      by (simp add: dec_isZero_def dec_add_def)
    define share0 where "share0 = Dec (chopPrecisionAndRound
        (tdiv (atomics v0 * precisionMultiplier * precisionMultiplier) (atomics v0 + atomics v1)))"
    define share1 where "share1 = Dec (chopPrecisionAndRound
        (tdiv (atomics v1 * precisionMultiplier * precisionMultiplier) (atomics v0 + atomics v1)))"
    have q0: "dec_quo v0 (dec_add v0 v1) = Some share0"
      and q1: "dec_quo v1 (dec_add v0 v1) = Some share1"
      using t by (simp_all add: dec_quo_def dec_add_def share0_def share1_def)
    have res: "depositPercentages False False (Some v1) (Some v0) = Some (share0, share1)"
      using nz q0 q1 by (simp add: depositPercentages_def)
    have "\<bar>atomics (dec_add share0 share1) - atomics (newDec 1)\<bar> \<le> 1"
      if "0 \<le> atomics v0 \<and> 0 \<le> atomics v1"
      using shares_sum [of "atomics v0" "atomics v1"] that t
      by (simp add: dec_add_def newDec_def share0_def share1_def)
    with q0 q1 res show ?thesis by blast
  qed
  from both missing base quote zero shares show ?thesis by blast
qed

theorem deposit_only_and_percentages_witness:
  "baseDepositOnly (Dec 5) False (Dec 6, Dec 7) \<and> \<not> quoteDepositOnly (Dec 5) False (Dec 6, Dec 7) \<and>
   depositPercentages True False (Some (Dec 1)) None = Some (Dec 0, Dec 0) \<and>
   depositPercentages False False (Some (Dec 2000000000000000000)) (Some (Dec 1000000000000000000))
     = Some (Dec 333333333333333333, Dec 666666666666666667) \<and>
   \<bar>atomics (dec_add (Dec 333333333333333333) (Dec 666666666666666667)) - atomics (newDec 1)\<bar> \<le> 1"
  using deposit_only_and_percentages [where cp = "Dec 5" and fullRange = False
      and range_v = "(Dec 6, Dec 7)" and ?value0.0 = None and ?value1.0 = "Some (Dec 1)"
      and b = True and q = False and ?v1.0 = "Dec 2000000000000000000"
      and ?v0.0 = "Dec 1000000000000000000"]
  by (simp add: baseDepositOnly_def quoteDepositOnly_def dec_lt_def dec_gt_def dec_isZero_def
      depositPercentages_def newDec_def dec_add_def dec_quo_def tdiv_def precisionMultiplier_def
      chopPrecisionAndRound_def chopPositive_def)

text \<open>
  Claim C9 as stated fails: for the fiat values \<open>1.999999999999999998\<close> and
  \<open>0.000000000000000001\<close>, with neither deposit-only flag set, the shares are
  \<open>0.999999999999999999\<close> and \<open>0\<close>, which sum neither to 1 nor to 0.
\<close>

theorem depositPercentages_sum_counterexample:
  "\<not> baseDepositOnly (Dec 5) False (Dec 4, Dec 7) \<and> \<not> quoteDepositOnly (Dec 5) False (Dec 4, Dec 7) \<and>
   depositPercentages False False (Some (Dec 1)) (Some (Dec 1999999999999999998))
     = Some (Dec 999999999999999999, Dec 0) \<and>
   dec_add (Dec 999999999999999999) (Dec 0) \<noteq> newDec 1 \<and>
   dec_add (Dec 999999999999999999) (Dec 0) \<noteq> newDec 0"
  by (simp add: baseDepositOnly_def quoteDepositOnly_def dec_lt_def dec_gt_def dec_isZero_def
      depositPercentages_def newDec_def dec_add_def dec_quo_def tdiv_def precisionMultiplier_def
      chopPrecisionAndRound_def chopPositive_def)

section \<open>Properties of the price range and the tick range\<close>

lemma mul_50: "atomics (dec_mul cp (newDec 50)) = 50 * atomics cp"
proof -
  have "atomics cp * (50 * precisionMultiplier) = (50 * atomics cp) * precisionMultiplier"
    by simp
  then show ?thesis
    by (simp only: dec_mul_def newDec_def Dec.sel chop_mult)
qed

lemma quo_50:
  "\<exists>m. dec_quo cp (newDec 50) = Some m \<and> \<bar>50 * atomics m - atomics cp\<bar> \<le> 25"
proof -
  define y where "y = atomics cp * 20000000000000000"
  have nz: "50 * precisionMultiplier \<noteq> 0"
    by (simp add: precisionMultiplier_def)
  have "atomics cp * precisionMultiplier * precisionMultiplier = y * (50 * precisionMultiplier)"
    by (simp add: y_def precisionMultiplier_def)
  then have "tdiv (atomics cp * precisionMultiplier * precisionMultiplier) (50 * precisionMultiplier) = y"
    using tdiv_mult [OF nz] by (simp only:)
  then have q: "dec_quo cp (newDec 50) = Some (Dec (chopPrecisionAndRound y))"
    using nz by (simp add: dec_quo_def newDec_def)
  have "\<bar>50 * chopPrecisionAndRound y - atomics cp\<bar> \<le> 25"
    using chop_bounds [of y] by (simp add: y_def precisionMultiplier_def)
  with q show ?thesis by simp
qed

text \<open>
  Claim C4, as amended. When the two price inputs convert to decimals: with
  \<open>fullRange\<close> on, the range is exactly \<open>[minSpotPrice, maxSpotPrice]\<close>; with \<open>fullRange\<close>
  off on a concentrated pool, each input price is passed to the package's
  \<open>roundPriceToNearestTick\<close> with the lower-tick flag set, and the range is clamped, so
  that \<open>range[0]\<close> is at least \<open>currentPrice.quo(50)\<close> and \<open>range[1]\<close> is at most
  \<open>currentPrice.mul(50)\<close>. The product is exactly 50 times the current price; the
  quotient is the 50th part of the current price rounded to 18 decimals, which differs
  from the exact 50th part by at most half a unit of the 18th decimal and can be below
  it.
\<close>

theorem range_memo_bounds:
  assumes "toDec parseDec minPriceInput = Some input0"
    and "toDec parseDec maxPriceInput = Some input1"
  shows "range_memo lib parseDec minPriceInput maxPriceInput clPool True cp =
           Some (minSpotPrice lib, maxSpotPrice lib) \<and>
         (roundPriceToNearestTick lib input0 (tick_spacing pool) True = Some inputMinPrice \<and>
          roundPriceToNearestTick lib input1 (tick_spacing pool) True = Some inputMaxPrice \<longrightarrow>
          (\<exists>minPrice50x r0 r1.
             range_memo lib parseDec minPriceInput maxPriceInput (Some pool) False cp = Some (r0, r1) \<and>
             dec_quo cp (newDec 50) = Some minPrice50x \<and>
             \<bar>50 * atomics minPrice50x - atomics cp\<bar> \<le> 25 \<and>
             atomics (dec_mul cp (newDec 50)) = 50 * atomics cp \<and>
             r0 = (if dec_lt inputMinPrice minPrice50x then minPrice50x else inputMinPrice) \<and>
             r1 = (if dec_gt inputMaxPrice (dec_mul cp (newDec 50))
                   then dec_mul cp (newDec 50) else inputMaxPrice) \<and>
             dec_gte r0 minPrice50x \<and> dec_lte r1 (dec_mul cp (newDec 50))))"
proof -
  have full: "range_memo lib parseDec minPriceInput maxPriceInput clPool True cp =
           Some (minSpotPrice lib, maxSpotPrice lib)"
    using assms by (cases clPool) (simp_all add: range_memo_def)
  obtain m where m: "dec_quo cp (newDec 50) = Some m" "\<bar>50 * atomics m - atomics cp\<bar> \<le> 25"
    using quo_50 by blast
  have "\<exists>minPrice50x r0 r1.
             range_memo lib parseDec minPriceInput maxPriceInput (Some pool) False cp = Some (r0, r1) \<and>
             dec_quo cp (newDec 50) = Some minPrice50x \<and>
             \<bar>50 * atomics minPrice50x - atomics cp\<bar> \<le> 25 \<and>
             atomics (dec_mul cp (newDec 50)) = 50 * atomics cp \<and>
             r0 = (if dec_lt inputMinPrice minPrice50x then minPrice50x else inputMinPrice) \<and>
             r1 = (if dec_gt inputMaxPrice (dec_mul cp (newDec 50))
                   then dec_mul cp (newDec 50) else inputMaxPrice) \<and>
             dec_gte r0 minPrice50x \<and> dec_lte r1 (dec_mul cp (newDec 50))"
    if "roundPriceToNearestTick lib input0 (tick_spacing pool) True = Some inputMinPrice"
      and "roundPriceToNearestTick lib input1 (tick_spacing pool) True = Some inputMaxPrice"
    using that assms m mul_50 [of cp]
    by (simp add: range_memo_def dec_lt_def dec_gt_def dec_gte_def dec_lte_def)
  with full show ?thesis by blast
qed


theorem range_memo_bounds_witness:
  "toDec example_parseDec \<lparr>decRaw = ''1'', multiplier = newDec 1\<rparr> = Some (newDec 1) \<and>
   toDec example_parseDec \<lparr>decRaw = ''10.'', multiplier = newDec 1\<rparr> = Some (newDec 10) \<and>
   range_memo example_lib example_parseDec \<lparr>decRaw = ''1'', multiplier = newDec 1\<rparr>
      \<lparr>decRaw = ''10.'', multiplier = newDec 1\<rparr> (Some \<lparr>tick_spacing = 100\<rparr>) True (newDec 100)
     = Some (Dec 1000000, newDec (10 ^ 38)) \<and>
   range_memo example_lib example_parseDec \<lparr>decRaw = ''1'', multiplier = newDec 1\<rparr>
      \<lparr>decRaw = ''10.'', multiplier = newDec 1\<rparr> (Some \<lparr>tick_spacing = 100\<rparr>) False (newDec 100)
     = Some (newDec 2, newDec 10)"
proof -
  have in0: "toDec example_parseDec \<lparr>decRaw = ''1'', multiplier = newDec 1\<rparr> = Some (newDec 1)"
    by (simp add: toDec_def endsWith_def example_parseDec_def removeCurrencyDecimals_def
        dec_quo_def newDec_def tdiv_def precisionMultiplier_def chopPrecisionAndRound_def
        chopPositive_def)
  have in1: "toDec example_parseDec \<lparr>decRaw = ''10.'', multiplier = newDec 1\<rparr> = Some (newDec 10)"
    by (simp add: toDec_def endsWith_def js_slice_def example_parseDec_def
        removeCurrencyDecimals_def dec_quo_def newDec_def tdiv_def precisionMultiplier_def
        chopPrecisionAndRound_def chopPositive_def)
  have q: "dec_quo (newDec 100) (newDec 50) = Some (newDec 2)"
    by (simp add: dec_quo_def newDec_def tdiv_def precisionMultiplier_def
        chopPrecisionAndRound_def chopPositive_def)
  have r0: "roundPriceToNearestTick example_lib (newDec 1) (tick_spacing \<lparr>tick_spacing = 100\<rparr>) True
      = Some (newDec 1)"
    and r1: "roundPriceToNearestTick example_lib (newDec 10) (tick_spacing \<lparr>tick_spacing = 100\<rparr>) True
      = Some (newDec 10)"
    by (simp_all add: example_lib_def)
  from range_memo_bounds [OF in0 in1, of example_lib "Some \<lparr>tick_spacing = 100\<rparr>" "newDec 100"
      "\<lparr>tick_spacing = 100\<rparr>" "newDec 1" "newDec 10"] r0 r1 q in0 in1
  show ?thesis
    by (simp add: example_lib_def dec_lt_def dec_gt_def newDec_def precisionMultiplier_def mul_50)
qed

text \<open>
  Claim C4 as stated fails: for the current price \<open>100.000000000000000024\<close> and the
  inputs 1 and 10, the quotient \<open>currentPrice.quo(50)\<close> rounds
  \<open>2.00000000000000000048\<close> to \<open>2\<close>, the lower input is clamped to it, and \<open>range[0] = 2\<close>
  is less than the 50th part of the current price.
\<close>

theorem range_memo_quotient_counterexample:
  "range_memo example_lib example_parseDec \<lparr>decRaw = ''1'', multiplier = newDec 1\<rparr>
      \<lparr>decRaw = ''10'', multiplier = newDec 1\<rparr> (Some \<lparr>tick_spacing = 100\<rparr>) False
      (Dec 100000000000000000024)
     = Some (newDec 2, newDec 10) \<and>
   50 * atomics (newDec 2) < atomics (Dec 100000000000000000024)"
  by (simp add: range_memo_def toDec_def endsWith_def example_parseDec_def
      removeCurrencyDecimals_def dec_quo_def dec_mul_def dec_lt_def dec_gt_def tdiv_def
      chopPrecisionAndRound_def chopPositive_def example_lib_def newDec_def
      precisionMultiplier_def)

lemma tickRange_try_Some:
  assumes "priceToTick lib (fst range_v) = Some lowerTick"
    and "priceToTick lib (snd range_v) = Some upperTick"
    and "roundToNearestDivisible lib lowerTick tickDivisor = Some l"
    and "roundToNearestDivisible lib upperTick tickDivisor = Some u"
  shows "tickRange lib False tickDivisor range_v =
     (if l = u then (max (minTick lib) (l - tickDivisor), min (maxTick lib) (u + tickDivisor))
      else (max (minTick lib) l, min (maxTick lib) u))"
  using assms by (auto simp add: tickRange_def tickRange_try_def max_def min_def)

lemma tickRange_within:
  "minTick lib \<le> fst (tickRange lib fullRange tickDivisor range_v) \<and>
   snd (tickRange lib fullRange tickDivisor range_v) \<le> maxTick lib"
  by (auto simp add: tickRange_def tickRange_try_def Let_def
      split: option.splits Option.bind_splits if_splits prod.splits)

text \<open>
  Claim C3, as amended. The lower tick of the tick range is at least \<open>minTick\<close> and
  its upper tick is at most \<open>maxTick\<close>; the tick range is \<open>[minTick, maxTick]\<close> when
  \<open>fullRange\<close> is on or a conversion raises an exception. When both
  range prices round to the same divisible tick, the lower tick is padded down and the
  upper tick padded up by one tick spacing before clamping. The lower tick is strictly
  less than the upper tick when the tick spacing is positive, \<open>minTick < maxTick\<close>, and
  the rounded ticks of the two range prices are in order and within the tick bounds.
\<close>

theorem tickRange_bounds:
  "minTick lib \<le> fst (tickRange lib fullRange tickDivisor range_v) \<and>
   snd (tickRange lib fullRange tickDivisor range_v) \<le> maxTick lib \<and>
   tickRange lib True tickDivisor range_v = (minTick lib, maxTick lib) \<and>
   (tickRange_try lib tickDivisor range_v = None \<longrightarrow>
      tickRange lib False tickDivisor range_v = (minTick lib, maxTick lib)) \<and>
   (priceToTick lib (fst range_v) = Some lowerTick \<and>
    priceToTick lib (snd range_v) = Some upperTick \<and>
    roundToNearestDivisible lib lowerTick tickDivisor = Some l \<and>
    roundToNearestDivisible lib upperTick tickDivisor = Some u \<longrightarrow>
      (l = u \<longrightarrow> tickRange lib False tickDivisor range_v =
          (max (minTick lib) (l - tickDivisor), min (maxTick lib) (u + tickDivisor))) \<and>
      (l \<noteq> u \<longrightarrow> tickRange lib False tickDivisor range_v =
          (max (minTick lib) l, min (maxTick lib) u)) \<and>
      (0 < tickDivisor \<and> minTick lib < maxTick lib \<and> minTick lib \<le> l \<and> l \<le> u \<and>
       u \<le> maxTick lib \<longrightarrow>
         fst (tickRange lib False tickDivisor range_v)
           < snd (tickRange lib False tickDivisor range_v)))"
proof -
  have a: "tickRange lib True tickDivisor range_v = (minTick lib, maxTick lib)"
    by (simp add: tickRange_def)
  have b: "tickRange_try lib tickDivisor range_v = None \<longrightarrow>
      tickRange lib False tickDivisor range_v = (minTick lib, maxTick lib)"
    by (simp add: tickRange_def)
  have c: "(l = u \<longrightarrow> tickRange lib False tickDivisor range_v =
          (max (minTick lib) (l - tickDivisor), min (maxTick lib) (u + tickDivisor))) \<and>
      (l \<noteq> u \<longrightarrow> tickRange lib False tickDivisor range_v =
          (max (minTick lib) l, min (maxTick lib) u)) \<and>
      (0 < tickDivisor \<and> minTick lib < maxTick lib \<and> minTick lib \<le> l \<and> l \<le> u \<and>
       u \<le> maxTick lib \<longrightarrow>
         fst (tickRange lib False tickDivisor range_v)
           < snd (tickRange lib False tickDivisor range_v))"
    if "priceToTick lib (fst range_v) = Some lowerTick"
      "priceToTick lib (snd range_v) = Some upperTick"
      "roundToNearestDivisible lib lowerTick tickDivisor = Some l"
      "roundToNearestDivisible lib upperTick tickDivisor = Some u"
    unfolding tickRange_try_Some [OF that] by auto
  from tickRange_within [of lib fullRange tickDivisor range_v] a b c show ?thesis
    by blast
qed

theorem tickRange_bounds_witness:
  "tickRange example_lib False 100 (newDec 1, newDec 10) = (0, 9000000) \<and>
   tickRange example_lib False 100 (newDec 1, newDec 1) = (- 100, 100) \<and>
   tickRange example_lib False 100 (newDec 0, newDec 10) = (- 108000000, 342000000)"
  using tickRange_bounds [of example_lib False 100 "(newDec 1, newDec 10)" 0 9000000 0 9000000]
    tickRange_bounds [of example_lib False 100 "(newDec 1, newDec 1)" 0 0 0 0]
    tickRange_bounds [of example_lib False 100 "(newDec 0, newDec 10)"]
  by (simp add: example_lib_def tickRange_try_def newDec_def precisionMultiplier_def)

text \<open>
  Claim C3 as stated fails for a range entered upside down: with the minimum price 10
  and the maximum price 1 on a pool whose current price is 5, the range is \<open>[10, 1]\<close>
  and the tick range is \<open>[9000000, 0]\<close>, whose lower tick is above its upper tick.
\<close>

theorem tickRange_inverted_counterexample:
  "range_memo example_lib example_parseDec \<lparr>decRaw = ''10'', multiplier = newDec 1\<rparr>
      \<lparr>decRaw = ''1'', multiplier = newDec 1\<rparr> (Some \<lparr>tick_spacing = 100\<rparr>) False (newDec 5)
     = Some (newDec 10, newDec 1) \<and>
   tickRange example_lib False 100 (newDec 10, newDec 1) = (9000000, 0) \<and>
   \<not> fst (tickRange example_lib False 100 (newDec 10, newDec 1))
       < snd (tickRange example_lib False 100 (newDec 10, newDec 1))"
  by (simp add: range_memo_def toDec_def endsWith_def example_parseDec_def
      removeCurrencyDecimals_def dec_quo_def dec_mul_def dec_lt_def dec_gt_def tdiv_def
      chopPrecisionAndRound_def chopPositive_def
      tickRange_def tickRange_try_def example_lib_def newDec_def precisionMultiplier_def)

section \<open>Properties of the position status\<close>










end
